theory Spec2Isabelle
  imports Complex_Main "HOL-Library.List_Lexorder" "HOL-Library.Product_Lexorder"
begin

section \<open>Duplicate file finder: data model\<close>

text \<open>
  The repository holds two programs: \<^verbatim>\<open>DuplicateFileName.py\<close> (grouping by normalised
  file name) and \<^verbatim>\<open>DuplicateFileSizeFinder.py\<close> (grouping by size, then by SHA-256).

  A Python \<^verbatim>\<open>str\<close> is a sequence of Unicode code points; it is modelled as a list of
  natural numbers. Lists of an ordered type are compared lexicographically, which is
  Python's order on \<^verbatim>\<open>str\<close>. A \<^verbatim>\<open>bytes\<close> object is a list of numbers below 256.
\<close>

type_synonym pystr = "nat list"
type_synonym pybytes = "nat list"

definition str :: "string \<Rightarrow> pystr" where
  "str s = map of_char s"

subsection \<open>The shared status and the resume handler (content mode)\<close>

datatype phase = Scanning | Hashing | NeedsTuning | Done | Failed

text \<open>The dictionary \<^verbatim>\<open>STATUS\<close> of \<^verbatim>\<open>DuplicateFileSizeFinder.py\<close>, one field per key.\<close>

record status =
  state :: phase
  message :: string
  st_walk_scanned :: nat
  st_walk_skipped :: nat
  hash_total :: nat
  hash_done :: nat
  eta_seconds :: "int option"
  budget_seconds :: "int option"
  elapsed_seconds :: int
  min_size :: int
  suggest_min_size :: "int option"

text \<open>
  The module globals that the worker and the \<^verbatim>\<open>/resume\<close> handler share:
  \<^verbatim>\<open>STATUS\<close>, \<^verbatim>\<open>CURRENT_MIN_SIZE\<close> and the flag of the \<^verbatim>\<open>threading.Event\<close>
  \<^verbatim>\<open>RESUME_EVENT\<close>.
\<close>

record globals =
  STATUS :: status
  CURRENT_MIN_SIZE :: int
  RESUME_EVENT :: bool

text \<open>
  The JSON body of a \<^verbatim>\<open>POST /resume\<close>. \<open>action\<close> is \<^verbatim>\<open>data.get("action")\<close>.
  The field \<^verbatim>\<open>new_min_size\<close> is either absent (the default \<^verbatim>\<open>0\<close> is taken), a value
  that \<^verbatim>\<open>int()\<close> converts to an integer, or a value on which \<^verbatim>\<open>int()\<close> raises.
\<close>

datatype json_field = Absent | Num int | Unconvertible

record request =
  action :: "pystr option"
  new_min_size :: json_field

datatype response = Ok200 | Bad400 string | Err500

text \<open>
  \<^verbatim>\<open>
  def resume():
      data = request.get_json(silent=True) or {}
      action = data.get("action")
      global CURRENT_MIN_SIZE
      if action == "continue":
          RESUME_EVENT.set()
          return jsonify(ok=True)
      elif action == "raise":
          new_min = int(data.get("new_min_size", 0))
          if new_min < 1024*1024:
              return jsonify(ok=False, error="minsize te laag"), 400
          CURRENT_MIN_SIZE = new_min
          set_status(min_size=CURRENT_MIN_SIZE)
          RESUME_EVENT.set()
          return jsonify(ok=True)
      return jsonify(ok=False, error="onbekende actie"), 400
  \<close>
  An exception of \<^verbatim>\<open>int()\<close> leaves the handler before any assignment; the framework
  answers 500.
\<close>

definition resume :: "request \<Rightarrow> globals \<Rightarrow> response \<times> globals" where
  "resume req g =
     (if action req = Some (str ''continue'') then
        (Ok200, g\<lparr>RESUME_EVENT := True\<rparr>)
      else if action req = Some (str ''raise'') then
        (case new_min_size req of
           Unconvertible \<Rightarrow> (Err500, g)
         | fld \<Rightarrow>
             (let new_min = (case fld of Num n \<Rightarrow> n | _ \<Rightarrow> 0) in
              if new_min < 1024 * 1024 then (Bad400 ''minsize te laag'', g)
              else (Ok200, g\<lparr>CURRENT_MIN_SIZE := new_min,
                               STATUS := (STATUS g)\<lparr>min_size := new_min\<rparr>,
                               RESUME_EVENT := True\<rparr>)))
      else (Bad400 ''onbekende actie'', g))"

text \<open>The initial value of \<^verbatim>\<open>STATUS\<close> and of the globals, as the module sets them.\<close>

definition STATUS0 :: status where
  "STATUS0 = \<lparr>state = Scanning, message = '''', st_walk_scanned = 0, st_walk_skipped = 0,
     hash_total = 0, hash_done = 0, eta_seconds = None, budget_seconds = None,
     elapsed_seconds = 0, min_size = 10 * 1024 * 1024, suggest_min_size = None\<rparr>"

definition globals0 :: globals where
  "globals0 = \<lparr>STATUS = STATUS0, CURRENT_MIN_SIZE = 10 * 1024 * 1024, RESUME_EVENT = False\<rparr>"

definition continue_req :: request where
  "continue_req = \<lparr>action = Some (str ''continue''), new_min_size = Absent\<rparr>"

definition raise_req :: "json_field \<Rightarrow> request" where
  "raise_req fld = \<lparr>action = Some (str ''raise''), new_min_size = fld\<rparr>"

subsection \<open>The name normaliser (name mode)\<close>

text \<open>
  Python classifies and case-folds characters with the Unicode tables. For code points
  below 128 the classes are written out; for the others the tables are a parameter of
  the model, so that no result depends on an assumption about them.
\<close>

record unicode_tables =
  uni_digit :: "nat \<Rightarrow> bool"
  uni_space :: "nat \<Rightarrow> bool"
  uni_casefold :: "nat \<Rightarrow> pystr"

text \<open>The class \<^verbatim>\<open>\d\<close> of a \<^verbatim>\<open>str\<close> pattern.\<close>

definition is_digit :: "unicode_tables \<Rightarrow> nat \<Rightarrow> bool" where
  "is_digit U c = (if c < 128 then 48 \<le> c \<and> c \<le> 57 else uni_digit U c)"

text \<open>
  The class \<^verbatim>\<open>\s\<close>, which is also what \<^verbatim>\<open>str.strip()\<close> removes: below 128 these are
  the characters 9 to 13, 28 to 31 and the space.
\<close>

definition is_space :: "unicode_tables \<Rightarrow> nat \<Rightarrow> bool" where
  "is_space U c = (if c < 128 then (9 \<le> c \<and> c \<le> 13) \<or> (28 \<le> c \<and> c \<le> 32) else uni_space U c)"

definition casefold_cp :: "unicode_tables \<Rightarrow> nat \<Rightarrow> pystr" where
  "casefold_cp U c =
     (if c < 128 then (if 65 \<le> c \<and> c \<le> 90 then [c + 32] else [c]) else uni_casefold U c)"

definition casefold :: "unicode_tables \<Rightarrow> pystr \<Rightarrow> pystr" where
  "casefold U s = concat (map (casefold_cp U) s)"

text \<open>
  \<^verbatim>\<open>os.path\<close> is \<^verbatim>\<open>posixpath\<close> or \<^verbatim>\<open>ntpath\<close>. The separators are \<^verbatim>\<open>/\<close> (47) and, on
  Windows, also \<^verbatim>\<open>\\<close> (92). \<^verbatim>\<open>ntpath.basename\<close> first splits off the drive; for a
  drive letter that is the prefix \<^verbatim>\<open>X:\<close> (58 is the colon). A UNC drive
  \<^verbatim>\<open>\\server\share\<close> ends at a separator, so for every path with a component after the
  share the base name is the text after the last separator, as below.
\<close>

datatype os_flavour = Posix | Nt

definition is_sep :: "os_flavour \<Rightarrow> nat \<Rightarrow> bool" where
  "is_sep fl c = (c = 47 \<or> (fl = Nt \<and> c = 92))"

definition last_component :: "os_flavour \<Rightarrow> pystr \<Rightarrow> pystr" where
  "last_component fl p = rev (takeWhile (\<lambda>c. \<not> is_sep fl c) (rev p))"

definition basename :: "os_flavour \<Rightarrow> pystr \<Rightarrow> pystr" where
  "basename fl p =
     last_component fl (if fl = Nt \<and> 2 \<le> length p \<and> p ! 1 = 58 then drop 2 p else p)"

text \<open>
  \<^verbatim>\<open>os.path.splitext\<close>: the extension starts at the last dot (46) of the last
  component, unless only dots precede that dot in the component.
\<close>

definition splitext :: "os_flavour \<Rightarrow> pystr \<Rightarrow> pystr \<times> pystr" where
  "splitext fl p =
     (let tail = last_component fl p;
          ext_len = Suc (length (takeWhile (\<lambda>c. c \<noteq> 46) (rev tail)))
      in if list_ex (\<lambda>c. c = 46) tail
            \<and> list_ex (\<lambda>c. c \<noteq> 46) (take (length tail - ext_len) tail)
         then (take (length p - ext_len) p, drop (length p - ext_len) p)
         else (p, []))"

text \<open>
  \<^verbatim>\<open>
  TS_REGEX = re.compile(r"""
      ^(?P<ts>\d{8})            # eejjmmdd: 8 cijfers
      (?:[-_ ]?\d{4})?          # optioneel mmss (4 cijfers) met optionele separator
      [-_ .]*                   # eventueel restscheidingstekens
  """, re.VERBOSE)
  \<close>
  \<open>ts_match_end\<close> is \<^verbatim>\<open>m.end()\<close> of \<^verbatim>\<open>TS_REGEX.match(candidate)\<close>, or \<open>None\<close>
  when there is no match. The optional group is greedy: first with a separator
  (45 \<^verbatim>\<open>-\<close>, 95 \<^verbatim>\<open>_\<close>, 32 space), then without, then not at all; the final star
  (also 46, the dot) always matches, so the first alternative that fits is taken.
\<close>

definition ts_match_end :: "unicode_tables \<Rightarrow> pystr \<Rightarrow> nat option" where
  "ts_match_end U c =
     (if 8 \<le> length c \<and> list_all (is_digit U) (take 8 c) then
        (let r = drop 8 c;
             n1 = (if 5 \<le> length r \<and> hd r \<in> {45, 95, 32}
                      \<and> list_all (is_digit U) (take 4 (tl r)) then 5
                   else if 4 \<le> length r \<and> list_all (is_digit U) (take 4 r) then 4
                   else 0);
             n2 = length (takeWhile (\<lambda>x. x \<in> {45, 95, 32, 46}) (drop n1 r))
         in Some (8 + n1 + n2))
      else None)"

text \<open>
  \<^verbatim>\<open>re.sub(r"[...]+", " ", s)\<close>: every maximal run of characters of the class becomes
  one space (32).
\<close>

function sub_runs :: "(nat \<Rightarrow> bool) \<Rightarrow> pystr \<Rightarrow> pystr" where
  "sub_runs P [] = []"
| "sub_runs P (c # cs) =
     (if P c then 32 # sub_runs P (dropWhile P cs) else c # sub_runs P cs)"
  by pat_completeness auto
termination
  by (relation "measure (\<lambda>(P, s). length s)")
     (auto simp: length_dropWhile_le less_Suc_eq_le)

definition strip :: "unicode_tables \<Rightarrow> pystr \<Rightarrow> pystr" where
  "strip U s = rev (dropWhile (is_space U) (rev (dropWhile (is_space U) s)))"

text \<open>
  \<^verbatim>\<open>
  def normalized_name(path: str, ignore_ext: bool) -> str:
      base = os.path.basename(path)
      name, ext = os.path.splitext(base)
      candidate = name if ignore_ext else base
      m = TS_REGEX.match(candidate)
      if m:
          candidate = candidate[m.end():]
      candidate = re.sub(r"[_\-\.]+", " ", candidate)
      candidate = re.sub(r"\s+", " ", candidate).strip()
      return candidate.casefold()
  \<close>
  None of these operations raises on a \<^verbatim>\<open>str\<close>, so the model has no error branch.
\<close>

definition normalized_name :: "unicode_tables \<Rightarrow> os_flavour \<Rightarrow> pystr \<Rightarrow> bool \<Rightarrow> pystr" where
  "normalized_name U fl path ignore_ext =
     (let base = basename fl path;
          name = fst (splitext fl base);
          candidate = (if ignore_ext then name else base);
          candidate = (case ts_match_end U candidate of
                         Some e \<Rightarrow> drop e candidate | None \<Rightarrow> candidate);
          candidate = sub_runs (\<lambda>c. c \<in> {95, 45, 46}) candidate;
          candidate = strip U (sub_runs (is_space U) candidate)
      in casefold U candidate)"

subsection \<open>Path tokens (both programs)\<close>

text \<open>
  Both programs define the same pair:
  \<^verbatim>\<open>
  def encode_path(path: str) -> str:
      return base64.urlsafe_b64encode(path.encode("utf-8")).decode("ascii")

  def decode_path(token: str) -> str:
      return base64.urlsafe_b64decode(token.encode("ascii")).decode("utf-8")
  \<close>
  The library functions are modelled as the standard library documents them.
\<close>

datatype codec_error = UnicodeEncodeError | UnicodeDecodeError | BinasciiError

text \<open>
  \<^verbatim>\<open>str.encode("utf-8")\<close> of one code point. A surrogate (D800 to DFFF) cannot be
  encoded; a \<^verbatim>\<open>str\<close> never holds a number from 110000 on.
\<close>

definition utf8_encode_cp :: "nat \<Rightarrow> pybytes option" where
  "utf8_encode_cp c =
     (if c < 0x80 then Some [c]
      else if c < 0x800 then Some [0xC0 + c div 64, 0x80 + c mod 64]
      else if c < 0x10000 then
        (if 0xD800 \<le> c \<and> c \<le> 0xDFFF then None
         else Some [0xE0 + c div 4096, 0x80 + (c div 64) mod 64, 0x80 + c mod 64])
      else if c < 0x110000 then
        Some [0xF0 + c div 262144, 0x80 + (c div 4096) mod 64,
              0x80 + (c div 64) mod 64, 0x80 + c mod 64]
      else None)"

fun utf8_encode :: "pystr \<Rightarrow> pybytes option" where
  "utf8_encode [] = Some []"
| "utf8_encode (c # cs) =
     (case utf8_encode_cp c of
        None \<Rightarrow> None
      | Some bs \<Rightarrow> (case utf8_encode cs of None \<Rightarrow> None | Some r \<Rightarrow> Some (bs @ r)))"

definition is_cont :: "nat \<Rightarrow> bool" where
  "is_cont b = (0x80 \<le> b \<and> b < 0xC0)"

text \<open>
  The strict decoder \<^verbatim>\<open>bytes.decode("utf-8")\<close>: \<open>utf8_decode_first\<close> reads one code
  point and gives it with the number of continuation bytes it took. Overlong forms,
  surrogates and values from 110000 on are errors.
\<close>

definition utf8_decode_first :: "pybytes \<Rightarrow> (nat \<times> nat) option" where
  "utf8_decode_first bs =
     (case bs of
        [] \<Rightarrow> None
      | b0 # r \<Rightarrow>
          if b0 < 0x80 then Some (b0, 0)
          else if 0xC2 \<le> b0 \<and> b0 < 0xE0 then
            (case r of
               b1 # _ \<Rightarrow> if is_cont b1 then Some ((b0 - 0xC0) * 64 + (b1 - 0x80), 1) else None
             | _ \<Rightarrow> None)
          else if 0xE0 \<le> b0 \<and> b0 < 0xF0 then
            (case r of
               b1 # b2 # _ \<Rightarrow>
                 (let c = (b0 - 0xE0) * 4096 + (b1 - 0x80) * 64 + (b2 - 0x80) in
                  if is_cont b1 \<and> is_cont b2 \<and> 0x800 \<le> c \<and> \<not> (0xD800 \<le> c \<and> c \<le> 0xDFFF)
                  then Some (c, 2) else None)
             | _ \<Rightarrow> None)
          else if 0xF0 \<le> b0 \<and> b0 < 0xF5 then
            (case r of
               b1 # b2 # b3 # _ \<Rightarrow>
                 (let c = (b0 - 0xF0) * 262144 + (b1 - 0x80) * 4096 + (b2 - 0x80) * 64
                          + (b3 - 0x80) in
                  if is_cont b1 \<and> is_cont b2 \<and> is_cont b3 \<and> 0x10000 \<le> c \<and> c < 0x110000
                  then Some (c, 3) else None)
             | _ \<Rightarrow> None)
          else None)"

function utf8_decode :: "pybytes \<Rightarrow> pystr option" where
  "utf8_decode bs =
     (if bs = [] then Some []
      else (case utf8_decode_first bs of
              None \<Rightarrow> None
            | Some (c, k) \<Rightarrow>
                (case utf8_decode (drop (Suc k) bs) of
                   None \<Rightarrow> None
                 | Some cs \<Rightarrow> Some (c # cs))))"
  by pat_completeness auto
termination
  by (relation "measure length") auto

declare utf8_decode.simps [simp del]

text \<open>
  The URL-safe alphabet of \<^verbatim>\<open>base64.urlsafe_b64encode\<close>, as code points:
  \<^verbatim>\<open>A-Z\<close>, \<^verbatim>\<open>a-z\<close>, \<^verbatim>\<open>0-9\<close>, \<^verbatim>\<open>-\<close> (45) and \<^verbatim>\<open>_\<close> (95); the padding is
  \<^verbatim>\<open>=\<close> (61).
\<close>

definition b64_char :: "nat \<Rightarrow> nat" where
  "b64_char i =
     (if i < 26 then 65 + i
      else if i < 52 then 97 + (i - 26)
      else if i < 62 then 48 + (i - 52)
      else if i = 62 then 45 else 95)"

fun urlsafe_b64encode :: "pybytes \<Rightarrow> pybytes" where
  "urlsafe_b64encode [] = []"
| "urlsafe_b64encode [a] = [b64_char (a div 4), b64_char ((a mod 4) * 16), 61, 61]"
| "urlsafe_b64encode [a, b] =
     [b64_char (a div 4), b64_char ((a mod 4) * 16 + b div 16), b64_char ((b mod 16) * 4), 61]"
| "urlsafe_b64encode (a # b # c # r) =
     [b64_char (a div 4), b64_char ((a mod 4) * 16 + b div 16),
      b64_char ((b mod 16) * 4 + c div 64), b64_char (c mod 64)] @ urlsafe_b64encode r"

text \<open>
  \<^verbatim>\<open>base64.urlsafe_b64decode\<close> maps \<^verbatim>\<open>-\<close> and \<^verbatim>\<open>_\<close> to \<^verbatim>\<open>+\<close> (43) and \<^verbatim>\<open>/\<close> (47)
  and decodes leniently: \<open>b64_value\<close> is the value of a character of either alphabet.
\<close>

definition b64_value :: "nat \<Rightarrow> nat option" where
  "b64_value c =
     (if 65 \<le> c \<and> c \<le> 90 then Some (c - 65)
      else if 97 \<le> c \<and> c \<le> 122 then Some (c - 97 + 26)
      else if 48 \<le> c \<and> c \<le> 57 then Some (c - 48 + 52)
      else if c = 45 \<or> c = 43 then Some 62
      else if c = 95 \<or> c = 47 then Some 63
      else None)"

text \<open>
  The lenient decoder (\<^verbatim>\<open>binascii.a2b_base64\<close>): \<open>q\<close> is the position in the current
  group of four, \<open>l\<close> the bits left over, \<open>pads\<close> the padding characters seen since
  the last data character. Characters outside the alphabet are skipped; padding that
  completes a group ends the input; input that ends inside a group is an error.
\<close>

fun a2b_base64 :: "pybytes \<Rightarrow> nat \<Rightarrow> nat \<Rightarrow> nat \<Rightarrow> pybytes option" where
  "a2b_base64 [] q l pads = (if q = 0 then Some [] else None)"
| "a2b_base64 (c # cs) q l pads =
     (if c = 61 then
        (if 2 \<le> q then (if 4 \<le> q + Suc pads then Some [] else a2b_base64 cs q l (Suc pads))
         else a2b_base64 cs q l pads)
      else
        (case b64_value c of
           None \<Rightarrow> a2b_base64 cs q l pads
         | Some v \<Rightarrow>
             if q = 0 then a2b_base64 cs 1 v 0
             else if q = 1 then map_option (Cons (l * 4 + v div 16)) (a2b_base64 cs 2 (v mod 16) 0)
             else if q = 2 then map_option (Cons (l * 16 + v div 4)) (a2b_base64 cs 3 (v mod 4) 0)
             else map_option (Cons (l * 64 + v)) (a2b_base64 cs 0 0 0)))"

definition urlsafe_b64decode :: "pybytes \<Rightarrow> pybytes option" where
  "urlsafe_b64decode t = a2b_base64 t 0 0 0"

definition encode_path :: "pystr \<Rightarrow> codec_error + pystr" where
  "encode_path path =
     (case utf8_encode path of
        None \<Rightarrow> Inl UnicodeEncodeError
      | Some bs \<Rightarrow> Inr (urlsafe_b64encode bs))"

definition decode_path :: "pystr \<Rightarrow> codec_error + pystr" where
  "decode_path token =
     (if list_ex (\<lambda>c. 128 \<le> c) token then Inl UnicodeEncodeError
      else (case urlsafe_b64decode token of
              None \<Rightarrow> Inl BinasciiError
            | Some bs \<Rightarrow>
                (case utf8_decode bs of
                   None \<Rightarrow> Inl UnicodeDecodeError
                 | Some s \<Rightarrow> Inr s)))"

text \<open>The text that \<^verbatim>\<open>str.encode("utf-8")\<close> accepts: code points that are no surrogates.\<close>

definition utf8_text :: "pystr \<Rightarrow> bool" where
  "utf8_text p = list_all (\<lambda>c. c < 0x110000 \<and> \<not> (0xD800 \<le> c \<and> c \<le> 0xDFFF)) p"

subsection \<open>The file walker\<close>

text \<open>
  One entry of \<^verbatim>\<open>filenames\<close> as the walker sees it: the joined path and what the file
  system answers for it. \<^verbatim>\<open>os.path.isfile\<close>, \<^verbatim>\<open>os.path.islink\<close> and
  \<^verbatim>\<open>is_cloud_placeholder\<close> never raise; \<^verbatim>\<open>os.path.getsize\<close> and
  \<^verbatim>\<open>os.path.getmtime\<close> raise \<^verbatim>\<open>OSError\<close> (\<open>None\<close>) or return a value.
\<close>

record entry =
  e_path :: pystr
  e_isfile :: bool
  e_islink :: bool
  e_cloud :: bool
  e_size :: "int option"
  e_mtime :: "rat option"

text \<open>
  \<^verbatim>\<open>
  def is_within_excludes(path: str, excludes: list[str]) -> bool:
      p = os.path.normpath(path).lower()
      for ex in excludes:
          if p.startswith(os.path.normpath(ex).lower()):
              return True
      return False
  \<close>
  \<open>normlower\<close> stands for \<^verbatim>\<open>os.path.normpath(_).lower()\<close>.
\<close>

definition is_within_excludes :: "(pystr \<Rightarrow> pystr) \<Rightarrow> pystr \<Rightarrow> pystr list \<Rightarrow> bool" where
  "is_within_excludes normlower path excludes =
     list_ex (\<lambda>ex. take (length (normlower ex)) (normlower path) = normlower ex) excludes"

text \<open>
  A \<^verbatim>\<open>defaultdict(list)\<close> keeps its keys in insertion order: an association list,
  where \<^verbatim>\<open>d[k].append(v)\<close> extends the list of an existing key in place and puts a new
  key at the end.
\<close>

fun dict_append :: "'k \<Rightarrow> 'v \<Rightarrow> ('k \<times> 'v list) list \<Rightarrow> ('k \<times> 'v list) list" where
  "dict_append k v [] = [(k, [v])]"
| "dict_append k v ((k', vs) # d) =
     (if k = k' then (k', vs @ [v]) # d else (k', vs) # dict_append k v d)"

text \<open>The local variables of the walk of \<^verbatim>\<open>find_duplicates_streaming\<close>.\<close>

record walk_state =
  size_buckets :: "(int \<times> pystr list) list"
  walk_scanned :: nat
  walk_skipped :: nat

text \<open>
  The body of \<^verbatim>\<open>for name in filenames\<close> in content mode; \<open>cur_min\<close> is what
  \<^verbatim>\<open>min_size_ref()\<close> returns.
  \<^verbatim>\<open>
  try:
      if not os.path.isfile(full) or os.path.islink(full):
          walk_skipped += 1
          continue
      if not include_cloud and is_cloud_placeholder(full):
          walk_skipped += 1
          continue
      size = os.path.getsize(full)
      walk_scanned += 1
      if size < min_size_ref():
          walk_skipped += 1
          continue
      size_buckets[size].append(full)
  except (PermissionError, FileNotFoundError, OSError):
      walk_skipped += 1
      continue
  \<close>
\<close>

definition walk_file :: "bool \<Rightarrow> int \<Rightarrow> entry \<Rightarrow> walk_state \<Rightarrow> walk_state" where
  "walk_file include_cloud cur_min e w =
     (if \<not> e_isfile e \<or> e_islink e then w\<lparr>walk_skipped := walk_skipped w + 1\<rparr>
      else if \<not> include_cloud \<and> e_cloud e then w\<lparr>walk_skipped := walk_skipped w + 1\<rparr>
      else (case e_size e of
              None \<Rightarrow> w\<lparr>walk_skipped := walk_skipped w + 1\<rparr>
            | Some sz \<Rightarrow>
                (let w1 = w\<lparr>walk_scanned := walk_scanned w + 1\<rparr> in
                 if sz < cur_min then w1\<lparr>walk_skipped := walk_skipped w1 + 1\<rparr>
                 else w1\<lparr>size_buckets := dict_append sz (e_path e) (size_buckets w1)\<rparr>)))"

text \<open>
  One step of \<^verbatim>\<open>os.walk\<close>: the directory path and the entries of its \<^verbatim>\<open>filenames\<close>.
  A directory under an exclude is left with \<^verbatim>\<open>continue\<close> before its files are looked
  at. (Pruning \<^verbatim>\<open>dirnames\<close> changes which directories \<^verbatim>\<open>os.walk\<close> yields later; the
  list of yields given here is the one it produced.)
\<close>

record walk_yield =
  w_dirpath :: pystr
  w_files :: "entry list"

definition walk_dir ::
  "(pystr \<Rightarrow> pystr) \<Rightarrow> pystr list \<Rightarrow> bool \<Rightarrow> int \<Rightarrow> walk_yield \<Rightarrow> walk_state \<Rightarrow> walk_state" where
  "walk_dir normlower excludes include_cloud cur_min y w =
     (if excludes \<noteq> [] \<and> is_within_excludes normlower (w_dirpath y) excludes then w
      else fold (walk_file include_cloud cur_min) (w_files y) w)"

definition walk0 :: walk_state where
  "walk0 = \<lparr>size_buckets = [], walk_scanned = 0, walk_skipped = 0\<rparr>"

definition walk ::
  "(pystr \<Rightarrow> pystr) \<Rightarrow> pystr list \<Rightarrow> bool \<Rightarrow> int \<Rightarrow> walk_yield list \<Rightarrow> walk_state" where
  "walk normlower excludes include_cloud cur_min ys =
     fold (walk_dir normlower excludes include_cloud cur_min) ys walk0"

subsection \<open>Name mode: \<^verbatim>\<open>scan_by_name\<close>\<close>

text \<open>The local variables of \<^verbatim>\<open>scan_by_name\<close>; a member is \<^verbatim>\<open>(fpath, size, mtime)\<close>.\<close>

type_synonym member = "pystr \<times> int \<times> rat"

record name_state =
  name_groups :: "(pystr \<times> member list) list"
  scanned :: nat
  skipped :: nat

text \<open>
  \<^verbatim>\<open>
  try:
      if not os.path.isfile(fpath) or os.path.islink(fpath):
          skipped += 1
          continue
      if not include_cloud and is_cloud_placeholder(fpath):
          skipped += 1
          continue
      size = os.path.getsize(fpath)
      if size < min_size:
          skipped += 1
          continue
      key = normalized_name(fpath, ignore_ext=ignore_ext)
      mtime = os.path.getmtime(fpath)
      groups[key].append((fpath, size, mtime))
      scanned += 1
  except (PermissionError, FileNotFoundError, OSError):
      skipped += 1
      continue
  \<close>
\<close>

definition name_file ::
  "unicode_tables \<Rightarrow> os_flavour \<Rightarrow> bool \<Rightarrow> bool \<Rightarrow> int \<Rightarrow> entry \<Rightarrow> name_state \<Rightarrow> name_state" where
  "name_file U fl include_cloud ignore_ext min_sz e n =
     (if \<not> e_isfile e \<or> e_islink e then n\<lparr>skipped := skipped n + 1\<rparr>
      else if \<not> include_cloud \<and> e_cloud e then n\<lparr>skipped := skipped n + 1\<rparr>
      else (case e_size e of
              None \<Rightarrow> n\<lparr>skipped := skipped n + 1\<rparr>
            | Some sz \<Rightarrow>
                if sz < min_sz then n\<lparr>skipped := skipped n + 1\<rparr>
                else (let key = normalized_name U fl (e_path e) ignore_ext in
                      case e_mtime e of
                        None \<Rightarrow> n\<lparr>skipped := skipped n + 1\<rparr>
                      | Some mtime \<Rightarrow>
                          n\<lparr>name_groups := dict_append key (e_path e, sz, mtime) (name_groups n),
                            scanned := scanned n + 1\<rparr>)))"

definition name_dir ::
  "unicode_tables \<Rightarrow> os_flavour \<Rightarrow> (pystr \<Rightarrow> pystr) \<Rightarrow> pystr list \<Rightarrow> bool \<Rightarrow> bool \<Rightarrow> int
     \<Rightarrow> walk_yield \<Rightarrow> name_state \<Rightarrow> name_state" where
  "name_dir U fl normlower ignores include_cloud ignore_ext min_sz y n =
     (if ignores \<noteq> [] \<and> is_within_excludes normlower (w_dirpath y) ignores then n
      else fold (name_file U fl include_cloud ignore_ext min_sz) (w_files y) n)"

text \<open>
  \<^verbatim>\<open>
  groups = {k: v for k, v in groups.items() if len(v) >= 2 and k}
  def grp_sort(item):
      k, files = item
      total = sum(s for _, s, _ in files)
      return (-len(files), -total, k)
  GROUPS = dict(sorted(groups.items(), key=grp_sort))
  \<close>
  \<^verbatim>\<open>sorted\<close> is stable, as \<open>sort_key\<close> is; tuples are compared lexicographically.
\<close>

definition grp_sort :: "pystr \<times> member list \<Rightarrow> int \<times> int \<times> pystr" where
  "grp_sort item =
     (- int (length (snd item)), - sum_list (map (\<lambda>(_, s, _). s) (snd item)), fst item)"

definition name_state0 :: name_state where
  "name_state0 = \<lparr>name_groups = [], scanned = 0, skipped = 0\<rparr>"

definition scan_walk ::
  "unicode_tables \<Rightarrow> os_flavour \<Rightarrow> (pystr \<Rightarrow> pystr) \<Rightarrow> pystr list \<Rightarrow> bool \<Rightarrow> bool \<Rightarrow> int
     \<Rightarrow> walk_yield list \<Rightarrow> name_state" where
  "scan_walk U fl normlower ignores include_cloud ignore_ext min_sz ys =
     fold (name_dir U fl normlower ignores include_cloud ignore_ext min_sz) ys name_state0"

text \<open>The value that \<^verbatim>\<open>scan_by_name\<close> leaves in the global \<^verbatim>\<open>GROUPS\<close>.\<close>

definition scan_by_name ::
  "unicode_tables \<Rightarrow> os_flavour \<Rightarrow> (pystr \<Rightarrow> pystr) \<Rightarrow> pystr list \<Rightarrow> bool \<Rightarrow> bool \<Rightarrow> int
     \<Rightarrow> walk_yield list \<Rightarrow> (pystr \<times> member list) list" where
  "scan_by_name U fl normlower ignores include_cloud ignore_ext min_sz ys =
     sort_key grp_sort
       (filter (\<lambda>(k, v). 2 \<le> length v \<and> k \<noteq> [])
          (name_groups (scan_walk U fl normlower ignores include_cloud ignore_ext min_sz ys)))"

subsection \<open>Content mode: hashing a file\<close>

text \<open>
  What the worker cannot compute by itself is a parameter. Times are seconds as exact
  rationals: \<open>started\<close> is \<^verbatim>\<open>time.time()\<close> at the start of the scan, \<open>walk_seconds\<close>
  the duration of the walk, \<open>hash_seconds p\<close> the duration of \<^verbatim>\<open>sha256_file(p)\<close>; all
  readings of the clock inside one loop iteration before the file is hashed give the
  same value. \<open>file_bytes p\<close> is the content that \<^verbatim>\<open>open(p, "rb")\<close> delivers, or
  \<open>None\<close> when opening or reading raises \<^verbatim>\<open>OSError\<close>. The hash object of
  \<^verbatim>\<open>hashlib.sha256()\<close> is abstract: its initial state, \<^verbatim>\<open>update\<close> and \<^verbatim>\<open>hexdigest\<close>.
\<close>

record 'h env =
  time_budget_sec :: int
  started :: rat
  walk_seconds :: rat
  hash_seconds :: "pystr \<Rightarrow> rat"
  file_bytes :: "pystr \<Rightarrow> pybytes option"
  sha_init :: 'h
  sha_update :: "'h \<Rightarrow> pybytes \<Rightarrow> 'h"
  sha_hexdigest :: "'h \<Rightarrow> pystr"

definition CHUNK :: nat where
  "CHUNK = 1024 * 1024"

text \<open>The successive results of \<^verbatim>\<open>f.read(n)\<close> up to the empty one.\<close>

function read_chunks :: "nat \<Rightarrow> pybytes \<Rightarrow> pybytes list" where
  "read_chunks n bs =
     (if bs = [] \<or> n = 0 then [] else take n bs # read_chunks n (drop n bs))"
  by pat_completeness auto
termination
  by (relation "measure (\<lambda>(n, bs). length bs)") auto

declare read_chunks.simps [simp del]

text \<open>
  \<^verbatim>\<open>
  def sha256_file(path: str) -> str:
      h = hashlib.sha256()
      with open(path, "rb") as f:
          while True:
              b = f.read(CHUNK)
              if not b:
                  break
              h.update(b)
      return h.hexdigest()
  \<close>
\<close>

definition sha256_file :: "'h env \<Rightarrow> pystr \<Rightarrow> pystr option" where
  "sha256_file E path =
     (case file_bytes E path of
        None \<Rightarrow> None
      | Some bs \<Rightarrow>
          Some (sha_hexdigest E (fold (\<lambda>b h. sha_update E h b) (read_chunks CHUNK bs) (sha_init E))))"

subsection \<open>Content mode: the hashing loop and the negotiation\<close>

text \<open>
  The local variables of the hashing phase, the clock, the globals, and the requests that
  arrive at \<^verbatim>\<open>/resume\<close> while the worker waits (each with the time that passes before
  it). \<open>hashed\<close> lists the calls of \<^verbatim>\<open>sha256_file\<close> in order, each path with
  the size of its bucket; it is kept for the statements and is read by no step.
\<close>

record hash_state =
  n_done :: nat
  groups :: "((int \<times> pystr) \<times> pystr list) list"
  avg_per_file :: "rat option"
  hash_start :: rat
  clock :: rat
  glob :: globals
  inbox :: "(rat \<times> request) list"
  hashed :: "(int \<times> pystr) list"

text \<open>\<^verbatim>\<open>int(x)\<close> of a float truncates towards zero.\<close>

definition py_int :: "rat \<Rightarrow> int" where
  "py_int x = (if 0 \<le> x then \<lfloor>x\<rfloor> else \<lceil>x\<rceil>)"

text \<open>\<^verbatim>\<open>avg_per_file or 0\<close>: \<^verbatim>\<open>None\<close> and \<^verbatim>\<open>0.0\<close> are both false.\<close>

definition or0 :: "rat option \<Rightarrow> rat" where
  "or0 a = (case a of None \<Rightarrow> 0 | Some x \<Rightarrow> x)"

text \<open>
  The head of the loop body of \<^verbatim>\<open>for p in paths\<close>, up to the test of the budget;
  the second component says whether the test succeeds.
  \<^verbatim>\<open>
  elapsed = time.time() - started
  remaining_budget = time_budget_sec - elapsed
  if done > 5:
      avg_per_file = (time.time() - hash_start) / done
  predicted_remaining = (total_to_hash - done) * (avg_per_file or 0)
  eta = int(predicted_remaining) if predicted_remaining else None
  set_status(hash_done=done, eta_seconds=eta, elapsed_seconds=int(elapsed))
  if remaining_budget > 0 and eta and eta > remaining_budget:
  \<close>
\<close>

definition check_budget :: "'h env \<Rightarrow> nat \<Rightarrow> hash_state \<Rightarrow> hash_state \<times> bool" where
  "check_budget E tot s =
     (let elapsed = clock s - started E;
          remaining_budget = of_int (time_budget_sec E) - elapsed;
          avg = (if 5 < n_done s then Some ((clock s - hash_start s) / of_nat (n_done s))
                 else avg_per_file s);
          predicted_remaining = of_int (int tot - int (n_done s)) * or0 avg;
          eta = (if predicted_remaining \<noteq> 0 then Some (py_int predicted_remaining) else None);
          g = (glob s)\<lparr>STATUS := (STATUS (glob s))\<lparr>hash_done := n_done s, eta_seconds := eta,
                 elapsed_seconds := py_int elapsed\<rparr>\<rparr>
      in (s\<lparr>avg_per_file := avg, glob := g\<rparr>,
          0 < remaining_budget
          \<and> (case eta of None \<Rightarrow> False
              | Some e \<Rightarrow> e \<noteq> 0 \<and> remaining_budget < of_int e)))"

text \<open>
  \<^verbatim>\<open>RESUME_EVENT.wait()\<close>: the requests are handled by \<open>resume\<close> one after the other
  until one of them sets the event. With no such request the worker waits for ever
  (\<open>None\<close>).
\<close>

fun await_resume ::
  "(rat \<times> request) list \<Rightarrow> rat \<Rightarrow> globals \<Rightarrow> (globals \<times> rat \<times> (rat \<times> request) list) option" where
  "await_resume [] t g = None"
| "await_resume ((d, r) # rs) t g =
     (let g' = snd (resume r g) in
      if RESUME_EVENT g' then Some (g', t + d, rs) else await_resume rs (t + d) g')"

text \<open>
  The pause:
  \<^verbatim>\<open>
  cur = min_size_ref()
  suggest = max(cur * 2, 50 * 1024 * 1024)
  set_status(state="needs_tuning", suggest_min_size=suggest, message="ETA overschrijdt tijdbudget")
  RESUME_EVENT.clear()
  RESUME_EVENT.wait()
  set_status(state="hashing", message="")
  hash_start = time.time() - done * (avg_per_file or 0)
  \<close>
\<close>

definition negotiate :: "hash_state \<Rightarrow> hash_state option" where
  "negotiate s =
     (let cur = CURRENT_MIN_SIZE (glob s);
          suggest = max (cur * 2) (50 * 1024 * 1024);
          g1 = (glob s)\<lparr>STATUS := (STATUS (glob s))\<lparr>state := NeedsTuning,
                  suggest_min_size := Some suggest, message := ''ETA overschrijdt tijdbudget''\<rparr>,
                RESUME_EVENT := False\<rparr>
      in case await_resume (inbox s) (clock s) g1 of
           None \<Rightarrow> None
         | Some (g2, t, rest) \<Rightarrow>
             Some (s\<lparr>glob := g2\<lparr>STATUS := (STATUS g2)\<lparr>state := Hashing, message := []\<rparr>\<rparr>,
                     clock := t, inbox := rest,
                     hash_start := t - of_nat (n_done s) * or0 (avg_per_file s)\<rparr>))"

text \<open>
  \<^verbatim>\<open>
  try:
      digest = sha256_file(p)
      groups[(size, digest)].append(p)
  except (PermissionError, FileNotFoundError, OSError):
      pass
  finally:
      done += 1
  \<close>
\<close>

definition hash_one :: "'h env \<Rightarrow> int \<Rightarrow> pystr \<Rightarrow> hash_state \<Rightarrow> hash_state" where
  "hash_one E bsize p s =
     (let s1 = s\<lparr>hashed := hashed s @ [(bsize, p)], clock := clock s + hash_seconds E p\<rparr> in
      case sha256_file E p of
        None \<Rightarrow> s1\<lparr>n_done := n_done s1 + 1\<rparr>
      | Some digest \<Rightarrow>
          s1\<lparr>groups := dict_append (bsize, digest) p (groups s1), n_done := n_done s1 + 1\<rparr>)"

text \<open>\<^verbatim>\<open>paths.index(p)\<close> for a \<open>p\<close> that occurs in \<open>paths\<close>.\<close>

definition index_of :: "'a \<Rightarrow> 'a list \<Rightarrow> nat" where
  "index_of p paths = length (takeWhile (\<lambda>q. q \<noteq> p) paths)"

text \<open>
  \<^verbatim>\<open>for p in paths\<close>, from the element \<open>p\<close> on; \<open>paths\<close> is the whole bucket.
  After a pause:
  \<^verbatim>\<open>
  if size < min_size_ref():
      remaining_in_bucket = 1 + (len(paths) - (paths.index(p) + 1))
      done += remaining_in_bucket
      break
  \<close>
\<close>

fun hash_paths ::
  "'h env \<Rightarrow> nat \<Rightarrow> int \<Rightarrow> pystr list \<Rightarrow> pystr list \<Rightarrow> hash_state \<Rightarrow> hash_state option" where
  "hash_paths E tot bsize paths [] s = Some s"
| "hash_paths E tot bsize paths (p # ps) s =
     (case check_budget E tot s of
        (s1, False) \<Rightarrow> hash_paths E tot bsize paths ps (hash_one E bsize p s1)
      | (s1, True) \<Rightarrow>
          (case negotiate s1 of
             None \<Rightarrow> None
           | Some s2 \<Rightarrow>
               if bsize < CURRENT_MIN_SIZE (glob s2) then
                 Some (s2\<lparr>n_done := n_done s2
                            + (1 + (length paths - (index_of p paths + 1)))\<rparr>)
               else hash_paths E tot bsize paths ps (hash_one E bsize p s2)))"

text \<open>
  \<^verbatim>\<open>for size, paths in jobs_all\<close>, with the bucket that has become too small:
  \<^verbatim>\<open>
  if size < min_size_ref():
      done += len(paths)
      set_status(hash_done=done,
                 elapsed_seconds=int(time.time() - started),
                 eta_seconds=max(int((total_to_hash - done) * (avg_per_file or 0)), 0)
                             if (avg_per_file and total_to_hash > done) else None)
      continue
  \<close>
\<close>

definition skip_bucket :: "'h env \<Rightarrow> nat \<Rightarrow> pystr list \<Rightarrow> hash_state \<Rightarrow> hash_state" where
  "skip_bucket E tot paths s =
     (let d = n_done s + length paths;
          eta = (if or0 (avg_per_file s) \<noteq> 0 \<and> d < tot
                 then Some (max (py_int (of_int (int tot - int d) * or0 (avg_per_file s))) 0)
                 else None)
      in s\<lparr>n_done := d,
           glob := (glob s)\<lparr>STATUS := (STATUS (glob s))\<lparr>hash_done := d,
                      elapsed_seconds := py_int (clock s - started E), eta_seconds := eta\<rparr>\<rparr>\<rparr>)"

fun hash_jobs ::
  "'h env \<Rightarrow> nat \<Rightarrow> (int \<times> pystr list) list \<Rightarrow> hash_state \<Rightarrow> hash_state option" where
  "hash_jobs E tot [] s = Some s"
| "hash_jobs E tot ((bsize, paths) # jobs) s =
     (if bsize < CURRENT_MIN_SIZE (glob s) then hash_jobs E tot jobs (skip_bucket E tot paths s)
      else (case hash_paths E tot bsize paths paths s of
              None \<Rightarrow> None
            | Some s' \<Rightarrow> hash_jobs E tot jobs s'))"

subsection \<open>Content mode: \<^verbatim>\<open>find_duplicates_streaming\<close>\<close>

text \<open>\<^verbatim>\<open>Group = namedtuple("Group", ["size", "sha256", "files"])\<close>\<close>

record group =
  gsize :: int
  sha256 :: pystr
  files :: "pystr list"

text \<open>
  \<^verbatim>\<open>
  dup_groups: list[Group] = []
  for (size, digest), files in groups.items():
      if len(files) >= 2 and size >= min_size_ref():
          dup_groups.append(Group(size=size, sha256=digest, files=sorted(files)))
  dup_groups.sort(key=lambda g: g.size * (len(g.files) - 1), reverse=True)
  \<close>
  A reversed sort is still stable: groups with equal keys keep their order, as with
  \<open>sort_key\<close> on the negated key.
\<close>

definition dup_groups :: "int \<Rightarrow> ((int \<times> pystr) \<times> pystr list) list \<Rightarrow> group list" where
  "dup_groups cur_min grps =
     sort_key (\<lambda>g. - (gsize g * (int (length (files g)) - 1)))
       (map (\<lambda>((sz, digest), fs). \<lparr>gsize = sz, sha256 = digest, files = sort fs\<rparr>)
          (filter (\<lambda>((sz, digest), fs). 2 \<le> length fs \<and> cur_min \<le> sz) grps))"

text \<open>\<^verbatim>\<open>jobs_all = [(s, p) for s, p in size_buckets.items() if len(p) >= 2]\<close>\<close>

definition jobs_all :: "walk_state \<Rightarrow> (int \<times> pystr list) list" where
  "jobs_all w = filter (\<lambda>(s, p). 2 \<le> length p) (size_buckets w)"

definition total_to_hash :: "(int \<times> pystr list) list \<Rightarrow> nat" where
  "total_to_hash jobs = sum_list (map (\<lambda>(s, p). length p) jobs)"

text \<open>
  The state in which the hashing loop starts, after the walk and
  \<^verbatim>\<open>set_status(state="hashing", hash_total=total_to_hash, hash_done=0)\<close>. Of the status
  updates of the walk the last one is kept.
\<close>

definition hash_state0 ::
  "'h env \<Rightarrow> walk_state \<Rightarrow> globals \<Rightarrow> (rat \<times> request) list \<Rightarrow> hash_state" where
  "hash_state0 E w g reqs =
     \<lparr>n_done = 0, groups = [], avg_per_file = None,
      hash_start = started E + walk_seconds E, clock = started E + walk_seconds E,
      glob = g\<lparr>STATUS := (STATUS g)\<lparr>state := Hashing,
                budget_seconds := Some (time_budget_sec E),
                elapsed_seconds := py_int (walk_seconds E),
                st_walk_scanned := walk_scanned w, st_walk_skipped := walk_skipped w,
                hash_total := total_to_hash (jobs_all w), hash_done := 0\<rparr>\<rparr>,
      inbox = reqs, hashed = []\<rparr>"

text \<open>
  The whole function: the returned groups and the final state, or \<open>None\<close> when the
  worker stays blocked in a pause. The walk reads the minimum size that the globals hold
  at the start; the final filter reads the one they hold at the end.
\<close>

definition find_duplicates_streaming ::
  "'h env \<Rightarrow> (pystr \<Rightarrow> pystr) \<Rightarrow> pystr list \<Rightarrow> bool \<Rightarrow> walk_yield list \<Rightarrow> globals
     \<Rightarrow> (rat \<times> request) list \<Rightarrow> (group list \<times> hash_state) option" where
  "find_duplicates_streaming E normlower excludes include_cloud ys g reqs =
     (let w = walk normlower excludes include_cloud (CURRENT_MIN_SIZE g) ys;
          jobs = jobs_all w
      in case hash_jobs E (total_to_hash jobs) jobs (hash_state0 E w g reqs) of
           None \<Rightarrow> None
         | Some s \<Rightarrow>
             Some (dup_groups (CURRENT_MIN_SIZE (glob s)) (groups s),
                   s\<lparr>glob := (glob s)\<lparr>STATUS := (STATUS (glob s))\<lparr>state := Done,
                          eta_seconds := Some 0,
                          elapsed_seconds := py_int (clock s - started E)\<rparr>\<rparr>\<rparr>))"

subsection \<open>Notions used in the statements\<close>

text \<open>The (key, element) pairs of a dictionary of lists.\<close>

definition dict_pairs :: "('k \<times> 'v list) list \<Rightarrow> ('k \<times> 'v) set" where
  "dict_pairs d = {(k, v). \<exists>vs. (k, vs) \<in> set d \<and> v \<in> set vs}"


text \<open>
  The dictionary \<^verbatim>\<open>groups\<close> that results from hashing the given files in order,
  each with the size of its bucket.
\<close>

definition add_hashed ::
  "'h env \<Rightarrow> (int \<times> pystr) list \<Rightarrow> ((int \<times> pystr) \<times> pystr list) list
     \<Rightarrow> ((int \<times> pystr) \<times> pystr list) list" where
  "add_hashed E hs grps =
     fold (\<lambda>(sz, p) g. case sha256_file E p of None \<Rightarrow> g
                        | Some d \<Rightarrow> dict_append (sz, d) p g) hs grps"

text \<open>
  The invariant of the hashing loop: \<^verbatim>\<open>groups\<close> holds exactly what the files hashed
  so far produce, and every hashed file is a member of a job.
\<close>

definition groups_ok :: "'h env \<Rightarrow> (int \<times> pystr) set \<Rightarrow> hash_state \<Rightarrow> bool" where
  "groups_ok E Q s \<longleftrightarrow> groups s = add_hashed E (hashed s) [] \<and> set (hashed s) \<subseteq> Q"

text \<open>
  A candidate: an entry of a directory that the walk does not leave out, which the walk
  appends to the bucket of its size \<open>sz\<close>.
\<close>

definition candidate ::
  "(pystr \<Rightarrow> pystr) \<Rightarrow> pystr list \<Rightarrow> bool \<Rightarrow> int \<Rightarrow> walk_yield list \<Rightarrow> entry \<Rightarrow> int \<Rightarrow> bool" where
  "candidate normlower excludes include_cloud cur_min ys e sz \<longleftrightarrow>
     list_ex (\<lambda>y. e \<in> set (w_files y)
                \<and> \<not> (excludes \<noteq> [] \<and> is_within_excludes normlower (w_dirpath y) excludes)) ys
     \<and> e_isfile e \<and> \<not> e_islink e \<and> (include_cloud \<or> \<not> e_cloud e)
     \<and> e_size e = Some sz \<and> cur_min \<le> sz"



subsection \<open>Example entries\<close>

text \<open>
  A regular file of 4096 bytes, below the default minimum size of 10 MiB, and the three
  files of a small tree: \<^verbatim>\<open>a/20240101-0800_report.pdf\<close>, \<^verbatim>\<open>b/report.pdf\<close> and
  \<^verbatim>\<open>c/report.pdf\<close>, each of 10 MiB.
\<close>

text \<open>Tables that know nothing outside ASCII; the examples hold ASCII names only.\<close>

definition ascii_tables :: unicode_tables where
  "ascii_tables = \<lparr>uni_digit = (\<lambda>_. False), uni_space = (\<lambda>_. False),
     uni_casefold = (\<lambda>c. [c])\<rparr>"

definition plain_file :: "string \<Rightarrow> int \<Rightarrow> entry" where
  "plain_file p sz = \<lparr>e_path = str p, e_isfile = True, e_islink = False, e_cloud = False,
     e_size = Some sz, e_mtime = Some 0\<rparr>"

definition small_file :: entry where
  "small_file = plain_file ''r/notes.txt'' 4096"

definition file_a :: entry where
  "file_a = plain_file ''a/20240101-0800_report.pdf'' 10485760"

definition file_b :: entry where
  "file_b = plain_file ''b/report.pdf'' 10485760"

definition file_c :: entry where
  "file_c = plain_file ''c/report.pdf'' 10485760"

text \<open>
  An environment for the examples: every file takes \<open>cost\<close> seconds to hash, the
  walk takes no time, and the hash object keeps the bytes it was given, so that equal
  digests mean equal contents. \<^verbatim>\<open>c/report.pdf\<close> holds other bytes than the rest.
\<close>

definition demo_env :: "int \<Rightarrow> rat \<Rightarrow> pybytes env" where
  "demo_env budget cost = \<lparr>time_budget_sec = budget, started = 0, walk_seconds = 0,
     hash_seconds = (\<lambda>_. cost),
     file_bytes = (\<lambda>p. if p = str ''c/report.pdf'' then Some [1, 2, 4] else Some [1, 2, 3]),
     sha_init = [], sha_update = (\<lambda>h b. h @ b), sha_hexdigest = (\<lambda>h. h)\<rparr>"

definition report_tree :: "walk_yield list" where
  "report_tree = [\<lparr>w_dirpath = str ''a'', w_files = [file_a]\<rparr>,
                  \<lparr>w_dirpath = str ''b'', w_files = [file_b]\<rparr>,
                  \<lparr>w_dirpath = str ''c'', w_files = [file_c]\<rparr>,
                  \<lparr>w_dirpath = str ''r'', w_files = [small_file]\<rparr>]"

text \<open>
  A directory \<^verbatim>\<open>d\<close> with eight files \<^verbatim>\<open>d/f0\<close> to \<^verbatim>\<open>d/f7\<close> of 20 MiB each, walked
  before \<^verbatim>\<open>a\<close> and \<^verbatim>\<open>b\<close>, and the same directories with \<^verbatim>\<open>d\<close> walked last.
\<close>

definition video_files :: "entry list" where
  "video_files =
     [plain_file ''d/f0'' 20971520, plain_file ''d/f1'' 20971520, plain_file ''d/f2'' 20971520,
      plain_file ''d/f3'' 20971520, plain_file ''d/f4'' 20971520, plain_file ''d/f5'' 20971520,
      plain_file ''d/f6'' 20971520, plain_file ''d/f7'' 20971520]"

definition video_tree :: "walk_yield list" where
  "video_tree = [\<lparr>w_dirpath = str ''d'', w_files = video_files\<rparr>,
                 \<lparr>w_dirpath = str ''a'', w_files = [file_a]\<rparr>,
                 \<lparr>w_dirpath = str ''b'', w_files = [file_b]\<rparr>]"

definition late_video_tree :: "walk_yield list" where
  "late_video_tree = [\<lparr>w_dirpath = str ''a'', w_files = [file_a]\<rparr>,
                      \<lparr>w_dirpath = str ''b'', w_files = [file_b]\<rparr>,
                      \<lparr>w_dirpath = str ''d'', w_files = video_files\<rparr>]"

section \<open>Properties\<close>





text \<open>
  C6: the name normaliser is a total function with no failing branch, and with the
  extension ignored it maps \<^verbatim>\<open>20230415-1230_Vacation Photo.jpg\<close> and
  \<^verbatim>\<open>20230415_Vacation_Photo.JPG\<close> to the same key, \<^verbatim>\<open>vacation photo\<close>, on either
  path flavour and whatever the Unicode tables say outside ASCII.
\<close>

theorem normalized_name_vacation_photo:
  "normalized_name U fl (str ''20230415-1230_Vacation Photo.jpg'') True
     = normalized_name U fl (str ''20230415_Vacation_Photo.JPG'') True
   \<and> normalized_name U fl (str ''20230415_Vacation_Photo.JPG'') True = str ''vacation photo''"
  by (simp add: normalized_name_def basename_def splitext_def last_component_def is_sep_def
      ts_match_end_def is_digit_def strip_def is_space_def casefold_def casefold_cp_def
      str_def Let_def)

subsection \<open>Base64 decoding inverts encoding\<close>

lemma b64_value_char: "i < 64 \<Longrightarrow> b64_value (b64_char i) = Some i"
  by (auto simp: b64_value_def b64_char_def)

lemma b64_char_not_pad: "b64_char i \<noteq> 61"
  by (auto simp: b64_char_def)

lemma b64_char_ascii: "b64_char i < 128"
  by (auto simp: b64_char_def)

lemma a2b_data:
  "i < 64 \<Longrightarrow> a2b_base64 (b64_char i # cs) q l pads =
     (if q = 0 then a2b_base64 cs 1 i 0
      else if q = 1 then map_option (Cons (l * 4 + i div 16)) (a2b_base64 cs 2 (i mod 16) 0)
      else if q = 2 then map_option (Cons (l * 16 + i div 4)) (a2b_base64 cs 3 (i mod 4) 0)
      else map_option (Cons (l * 64 + i)) (a2b_base64 cs 0 0 0))"
  by (simp add: b64_value_char b64_char_not_pad)

lemma a2b_pad:
  "a2b_base64 (61 # cs) q l pads =
     (if 2 \<le> q then (if 4 \<le> q + Suc pads then Some [] else a2b_base64 cs q l (Suc pads))
      else a2b_base64 cs q l pads)"
  by simp

lemma split_div: "x < k \<Longrightarrow> (m * k + x) div k = (m::nat)"
  by simp
lemma split_mod: "x < k \<Longrightarrow> (m * k + x) mod k = (x::nat)"
  by simp

lemma b64_roundtrip:
  "list_all (\<lambda>b. b < 256) bs \<Longrightarrow> urlsafe_b64decode (urlsafe_b64encode bs) = Some bs"
  unfolding urlsafe_b64decode_def
proof (induction bs rule: urlsafe_b64encode.induct)
  case 1
  then show ?case by simp
next
  case (2 a)
  then have a: "a < 256" by simp
  have i: "a div 4 < 64" "a mod 4 * 16 < 64" using a by auto
  have "a div 4 * 4 + a mod 4 * 16 div 16 = a" by simp
  then show ?case using i by (simp add: a2b_data a2b_pad del: a2b_base64.simps(2))
next
  case (3 a b)
  then have ab: "a < 256" "b < 256" by simp_all
  have i: "a div 4 < 64" "a mod 4 * 16 + b div 16 < 64" "b mod 16 * 4 < 64" using ab by auto
  have bd: "b div 16 < 16" using ab by auto
  have "a div 4 * 4 + (a mod 4 * 16 + b div 16) div 16 = a"
    using bd by (simp add: split_div)
  moreover have "(a mod 4 * 16 + b div 16) mod 16 * 16 + b mod 16 * 4 div 4 = b"
    using bd by (simp add: split_mod)
  ultimately show ?case using i by (simp add: a2b_data a2b_pad del: a2b_base64.simps(2))
next
  case (4 a b c r)
  then have abc: "a < 256" "b < 256" "c < 256" and r: "list_all (\<lambda>b. b < 256) r" by simp_all
  have i: "a div 4 < 64" "a mod 4 * 16 + b div 16 < 64" "b mod 16 * 4 + c div 64 < 64"
      "c mod 64 < 64" using abc by auto
  have bd: "b div 16 < 16" and cd: "c div 64 < 4" using abc by auto
  have e1: "a div 4 * 4 + (a mod 4 * 16 + b div 16) div 16 = a"
    using bd by (simp add: split_div)
  have e2: "(a mod 4 * 16 + b div 16) mod 16 * 16 + (b mod 16 * 4 + c div 64) div 4 = b"
    using bd cd by (simp add: split_div split_mod)
  have e3: "(b mod 16 * 4 + c div 64) mod 4 * 64 + c mod 64 = c"
    using cd by (simp add: split_mod)
  have ih: "a2b_base64 (urlsafe_b64encode r) 0 0 0 = Some r" using 4 r by simp
  show ?case using i e1 e2 e3 ih by (simp add: a2b_data a2b_pad del: a2b_base64.simps(2))
qed

lemma b64_ascii: "\<not> list_ex (\<lambda>c. 128 \<le> c) (urlsafe_b64encode bs)"
  by (induction bs rule: urlsafe_b64encode.induct) (simp_all add: b64_char_ascii not_le)

subsection \<open>UTF-8 decoding inverts encoding\<close>

lemma utf8_decode_step:
  "utf8_decode_first (b # bs) = Some (c, k) \<Longrightarrow>
     utf8_decode (b # bs) = (case utf8_decode (drop k bs) of None \<Rightarrow> None | Some cs \<Rightarrow> Some (c # cs))"
  by (subst utf8_decode.simps) simp

lemma first1: "c < 0x80 \<Longrightarrow> utf8_decode_first (c # r) = Some (c, 0)"
  by (simp add: utf8_decode_first_def)

lemma first2:
  assumes "0x80 \<le> c" "c < 0x800"
  shows "utf8_decode_first ((0xC0 + c div 64) # (0x80 + c mod 64) # r) = Some (c, 1)"
proof -
  have "2 \<le> c div 64" "c div 64 < 32" using assms by (simp_all add: le_div_geq div_less_iff_less_mult)
  then show ?thesis by (simp add: utf8_decode_first_def is_cont_def)
qed

lemma first3:
  assumes "0x800 \<le> c" "c < 0x10000" "\<not> (0xD800 \<le> c \<and> c \<le> 0xDFFF)"
  shows "utf8_decode_first ((0xE0 + c div 4096) # (0x80 + (c div 64) mod 64) # (0x80 + c mod 64) # r)
           = Some (c, 2)"
proof -
  have b: "c div 4096 < 16" using assms by simp
  have "c div 4096 * 4096 + c div 64 mod 64 * 64 + c mod 64 = c"
  proof -
    have "c div 64 div 64 = c div 4096" by (simp add: div_mult2_eq)
    then have "c div 4096 * 64 + c div 64 mod 64 = c div 64"
      using div_mult_mod_eq [of "c div 64" 64] by simp
    then have "c div 4096 * 4096 + c div 64 mod 64 * 64 = c div 64 * 64" by simp
    then show ?thesis by simp
  qed
  then show ?thesis using assms b by (simp add: utf8_decode_first_def is_cont_def)
qed

lemma first4:
  assumes "0x10000 \<le> c" "c < 0x110000"
  shows "utf8_decode_first ((0xF0 + c div 262144) # (0x80 + (c div 4096) mod 64)
            # (0x80 + (c div 64) mod 64) # (0x80 + c mod 64) # r) = Some (c, 3)"
proof -
  have b: "c div 262144 < 5" using assms by simp
  have "c div 262144 * 262144 + c div 4096 mod 64 * 4096 + c div 64 mod 64 * 64 + c mod 64 = c"
  proof -
    have d1: "c div 64 div 64 = c div 4096" by (simp add: div_mult2_eq)
    have d2: "c div 4096 div 64 = c div 262144" by (simp add: div_mult2_eq)
    have "c div 262144 * 64 + c div 4096 mod 64 = c div 4096"
      using div_mult_mod_eq [of "c div 4096" 64] d2 by simp
    then have e1: "c div 262144 * 262144 + c div 4096 mod 64 * 4096 = c div 4096 * 4096" by simp
    have "c div 4096 * 64 + c div 64 mod 64 = c div 64"
      using div_mult_mod_eq [of "c div 64" 64] d1 by simp
    then have e2: "c div 4096 * 4096 + c div 64 mod 64 * 64 = c div 64 * 64" by simp
    show ?thesis using e1 e2 by simp
  qed
  then show ?thesis using assms b by (simp add: utf8_decode_first_def is_cont_def)
qed

lemma utf8_decode_encode_cp:
  assumes "utf8_encode_cp c = Some bs"
  shows "utf8_decode (bs @ r) =
           (case utf8_decode r of None \<Rightarrow> None | Some cs \<Rightarrow> Some (c # cs))"
proof -
  consider "c < 0x80" | "0x80 \<le> c" "c < 0x800"
    | "0x800 \<le> c" "c < 0x10000" "\<not> (0xD800 \<le> c \<and> c \<le> 0xDFFF)"
    | "0x10000 \<le> c" "c < 0x110000"
    using assms by (auto simp: utf8_encode_cp_def split: if_splits)
  then show ?thesis
  proof cases
    case 1
    then have "bs = [c]" using assms by (simp add: utf8_encode_cp_def)
    then show ?thesis using utf8_decode_step [OF first1 [OF 1]] by simp
  next
    case 2
    then have "bs = [0xC0 + c div 64, 0x80 + c mod 64]"
      using assms by (simp add: utf8_encode_cp_def)
    then show ?thesis using utf8_decode_step [OF first2 [OF 2]] by simp
  next
    case 3
    then have "bs = [0xE0 + c div 4096, 0x80 + (c div 64) mod 64, 0x80 + c mod 64]"
      using assms by (auto simp: utf8_encode_cp_def split: if_splits)
    then show ?thesis using utf8_decode_step [OF first3 [OF 3]] by simp
  next
    case 4
    then have "bs = [0xF0 + c div 262144, 0x80 + (c div 4096) mod 64,
              0x80 + (c div 64) mod 64, 0x80 + c mod 64]"
      using assms by (simp add: utf8_encode_cp_def)
    then show ?thesis using utf8_decode_step [OF first4 [OF 4]] by simp
  qed
qed

lemma utf8_roundtrip: "utf8_encode p = Some bs \<Longrightarrow> utf8_decode bs = Some p"
proof (induction p arbitrary: bs)
  case Nil
  then show ?case by (simp add: utf8_decode.simps)
next
  case (Cons c cs)
  then obtain b r where b: "utf8_encode_cp c = Some b" and r: "utf8_encode cs = Some r"
    and bs: "bs = b @ r"
    by (auto split: option.splits)
  from Cons.IH [OF r] show ?case using utf8_decode_encode_cp [OF b, of r] bs by simp
qed

lemma utf8_encode_cp_bytes: "utf8_encode_cp c = Some bs \<Longrightarrow> list_all (\<lambda>b. b < 256) bs"
  by (auto simp: utf8_encode_cp_def split: if_splits)

lemma utf8_encode_bytes: "utf8_encode p = Some bs \<Longrightarrow> list_all (\<lambda>b. b < 256) bs"
  by (induction p arbitrary: bs) (auto split: option.splits dest: utf8_encode_cp_bytes)

lemma utf8_encode_total: "utf8_text p \<Longrightarrow> \<exists>bs. utf8_encode p = Some bs"
  by (induction p) (auto simp: utf8_text_def utf8_encode_cp_def split: option.splits)

text \<open>
  C9: for every path that is UTF-8 text (code points that are no surrogates),
  \<^verbatim>\<open>encode_path\<close> returns a token and \<^verbatim>\<open>decode_path\<close> of that token returns the
  path. Both programs define the pair with the same text, so the one model stands for
  both.
\<close>

theorem decode_path_encode_path:
  "utf8_text p \<Longrightarrow> \<exists>t. encode_path p = Inr t \<and> decode_path t = Inr p"
proof -
  assume "utf8_text p"
  then obtain bs where bs: "utf8_encode p = Some bs"
    using utf8_encode_total by blast
  have "urlsafe_b64decode (urlsafe_b64encode bs) = Some bs"
    using b64_roundtrip [OF utf8_encode_bytes [OF bs]] .
  moreover have "utf8_decode bs = Some p"
    using utf8_roundtrip [OF bs] .
  ultimately have "decode_path (urlsafe_b64encode bs) = Inr p"
    by (simp add: decode_path_def b64_ascii)
  then show ?thesis
    by (simp add: encode_path_def bs)
qed

theorem decode_path_encode_path_witness:
  "utf8_text [67, 58, 92, 0x20AC, 0x1F600, 233, 46, 106, 112, 103]
   \<and> encode_path [67, 58, 92, 0x20AC, 0x1F600, 233, 46, 106, 112, 103]
       = Inr (str ''Qzpc4oKs8J-YgMOpLmpwZw=='')
   \<and> decode_path (str ''Qzpc4oKs8J-YgMOpLmpwZw=='')
       = Inr [67, 58, 92, 0x20AC, 0x1F600, 233, 46, 106, 112, 103]"
proof -
  have t: "utf8_text [67, 58, 92, 0x20AC, 0x1F600, 233, 46, 106, 112, 103]"
    by (simp add: utf8_text_def)
  have e: "encode_path [67, 58, 92, 0x20AC, 0x1F600, 233, 46, 106, 112, 103]
             = Inr (str ''Qzpc4oKs8J-YgMOpLmpwZw=='')"
    by (simp add: encode_path_def utf8_encode_cp_def b64_char_def str_def)
  from decode_path_encode_path [OF t] e t show ?thesis by auto
qed

subsection \<open>The counters of the walk\<close>

text \<open>
  C8 (as stated): every entry increments exactly one of the two counters, and an entry
  that is a regular file, no link, no placeholder and readable is counted as scanned.
  A readable regular file below the minimum size is counted as skipped in name mode, not
  as scanned; in content mode the same file increments both counters.
\<close>

theorem walk_counters_counterexample:
  "scanned (name_file ascii_tables Posix False True 10485760 small_file name_state0) = 0
   \<and> skipped (name_file ascii_tables Posix False True 10485760 small_file name_state0) = 1
   \<and> walk_scanned (walk_file False 10485760 small_file walk0) = 1
   \<and> walk_skipped (walk_file False 10485760 small_file walk0) = 1"
  by (simp add: name_file_def walk_file_def small_file_def plain_file_def name_state0_def
      walk0_def)

text \<open>
  C8 (amended): for every entry the walker looks at: if the entry is not a regular file,
  is a symbolic link, is a cloud placeholder while \<open>include_cloud\<close> is false, or raises
  a file-system error, then \<open>skipped\<close> is incremented by one and \<open>scanned\<close> is
  unchanged; if it is a readable regular file smaller than the minimum size, then
  \<open>skipped\<close> is incremented by one (and in name mode \<open>scanned\<close> is unchanged);
  otherwise \<open>scanned\<close> is incremented by one and \<open>skipped\<close> is unchanged. In name
  mode reading the modification time is one of the calls that can raise.
\<close>

theorem walk_counters_entry:
  "(if \<not> e_isfile e \<or> e_islink e \<or> (\<not> include_cloud \<and> e_cloud e)
       \<or> (case e_size e of None \<Rightarrow> True | Some sz \<Rightarrow> sz < m) \<or> e_mtime e = None
    then skipped (name_file U fl include_cloud ignore_ext m e n) = skipped n + 1
       \<and> scanned (name_file U fl include_cloud ignore_ext m e n) = scanned n
    else scanned (name_file U fl include_cloud ignore_ext m e n) = scanned n + 1
       \<and> skipped (name_file U fl include_cloud ignore_ext m e n) = skipped n)
   \<and> (if \<not> e_isfile e \<or> e_islink e \<or> (\<not> include_cloud \<and> e_cloud e) \<or> e_size e = None
    then walk_skipped (walk_file include_cloud m e w) = walk_skipped w + 1
       \<and> walk_scanned (walk_file include_cloud m e w) = walk_scanned w
    else if (case e_size e of None \<Rightarrow> True | Some sz \<Rightarrow> sz < m)
    then walk_skipped (walk_file include_cloud m e w) = walk_skipped w + 1
    else walk_scanned (walk_file include_cloud m e w) = walk_scanned w + 1
       \<and> walk_skipped (walk_file include_cloud m e w) = walk_skipped w)"
  by (auto simp: name_file_def walk_file_def Let_def split: option.split)

theorem walk_counters_entry_witness:
  "skipped (name_file ascii_tables Posix False True 10485760 (file_a\<lparr>e_islink := True\<rparr>)
       name_state0) = 1
   \<and> scanned (name_file ascii_tables Posix False True 10485760 (file_a\<lparr>e_islink := True\<rparr>)
       name_state0) = 0
   \<and> walk_skipped (walk_file False 10485760 (file_a\<lparr>e_islink := True\<rparr>) walk0) = 1
   \<and> walk_scanned (walk_file False 10485760 (file_a\<lparr>e_islink := True\<rparr>) walk0) = 0
   \<and> skipped (name_file ascii_tables Posix False True 10485760 small_file name_state0) = 1
   \<and> scanned (name_file ascii_tables Posix False True 10485760 small_file name_state0) = 0
   \<and> walk_skipped (walk_file False 10485760 small_file walk0) = 1
   \<and> scanned (name_file ascii_tables Posix False True 10485760 file_a name_state0) = 1
   \<and> skipped (name_file ascii_tables Posix False True 10485760 file_a name_state0) = 0
   \<and> walk_scanned (walk_file False 10485760 file_a walk0) = 1
   \<and> walk_skipped (walk_file False 10485760 file_a walk0) = 0"
  using walk_counters_entry [of "file_a\<lparr>e_islink := True\<rparr>" False 10485760 ascii_tables Posix
      True name_state0 walk0]
    walk_counters_entry [of small_file False 10485760 ascii_tables Posix True name_state0 walk0]
    walk_counters_entry [of file_a False 10485760 ascii_tables Posix True name_state0 walk0]
  by (simp add: small_file_def file_a_def plain_file_def name_state0_def walk0_def)

subsection \<open>Dictionaries and the buckets of the walk\<close>


lemma dict_pairs_Cons: "dict_pairs ((k, vs) # d) = Pair k ` set vs \<union> dict_pairs d"
  by (auto simp: dict_pairs_def)










subsection \<open>Invariants of the hashing loop\<close>

lemma hash_paths_invariant:
  assumes "hash_paths E tot bsize paths ps s = Some s'"
    and "P s"
    and "set ps \<subseteq> Q"
    and cb: "\<And>s. P s \<Longrightarrow> P (fst (check_budget E tot s))"
    and ng: "\<And>s s2. P s \<Longrightarrow> negotiate s = Some s2 \<Longrightarrow> P s2"
    and ho: "\<And>s p. P s \<Longrightarrow> p \<in> Q \<Longrightarrow> P (hash_one E bsize p s)"
    and dn: "\<And>s n. P s \<Longrightarrow> P (s\<lparr>n_done := n\<rparr>)"
  shows "P s'"
  using assms(1,2,3)
proof (induction ps arbitrary: s)
  case Nil
  then show ?case by simp
next
  case (Cons p ps)
  obtain s1 b where c: "check_budget E tot s = (s1, b)" by (cases "check_budget E tot s")
  have p1: "P s1" using cb [OF Cons.prems(2)] c by simp
  have pq: "p \<in> Q" and sub: "set ps \<subseteq> Q" using Cons.prems(3) by simp_all
  show ?case
  proof (cases b)
    case False
    then have "hash_paths E tot bsize paths ps (hash_one E bsize p s1) = Some s'"
      using Cons.prems(1) c by simp
    then show ?thesis using Cons.IH ho [OF p1 pq] sub by blast
  next
    case True
    then obtain s2 where n: "negotiate s1 = Some s2"
      using Cons.prems(1) c by (auto split: option.splits)
    have p2: "P s2" using ng [OF p1 n] .
    show ?thesis
    proof (cases "bsize < CURRENT_MIN_SIZE (glob s2)")
      case True
      then have "s' = s2\<lparr>n_done := n_done s2 + (1 + (length paths - (index_of p paths + 1)))\<rparr>"
        using Cons.prems(1) c n \<open>b\<close> by simp
      then show ?thesis using dn [OF p2] by simp
    next
      case False
      then have "hash_paths E tot bsize paths ps (hash_one E bsize p s2) = Some s'"
        using Cons.prems(1) c n \<open>b\<close> by simp
      then show ?thesis using Cons.IH ho [OF p2 pq] sub by blast
    qed
  qed
qed

lemma hash_jobs_invariant:
  assumes "hash_jobs E tot jobs s = Some s'"
    and "P s"
    and "dict_pairs jobs \<subseteq> Q"
    and cb: "\<And>s. P s \<Longrightarrow> P (fst (check_budget E tot s))"
    and ng: "\<And>s s2. P s \<Longrightarrow> negotiate s = Some s2 \<Longrightarrow> P s2"
    and ho: "\<And>s bsize p. P s \<Longrightarrow> (bsize, p) \<in> Q \<Longrightarrow> P (hash_one E bsize p s)"
    and dn: "\<And>s n. P s \<Longrightarrow> P (s\<lparr>n_done := n\<rparr>)"
    and sk: "\<And>s paths. P s \<Longrightarrow> P (skip_bucket E tot paths s)"
  shows "P s'"
  using assms(1,2,3)
proof (induction jobs arbitrary: s)
  case Nil
  then show ?case by simp
next
  case (Cons j jobs)
  obtain bsize paths where j: "j = (bsize, paths)" by (cases j)
  have sub: "dict_pairs jobs \<subseteq> Q" and here: "Pair bsize ` set paths \<subseteq> Q"
    using Cons.prems(3) by (auto simp: j dict_pairs_Cons)
  show ?case
  proof (cases "bsize < CURRENT_MIN_SIZE (glob s)")
    case True
    then have "hash_jobs E tot jobs (skip_bucket E tot paths s) = Some s'"
      using Cons.prems(1) j by simp
    then show ?thesis using Cons.IH sk [OF Cons.prems(2)] sub by blast
  next
    case False
    then obtain s1 where h: "hash_paths E tot bsize paths paths s = Some s1"
      and r: "hash_jobs E tot jobs s1 = Some s'"
      using Cons.prems(1) j by (auto split: option.splits)
    have "P s1"
    proof (rule hash_paths_invariant [where P = P and Q = "{p. (bsize, p) \<in> Q}",
          OF h Cons.prems(2)])
      show "set paths \<subseteq> {p. (bsize, p) \<in> Q}" using here by auto
    qed (use cb ng ho dn in auto)
    then show ?thesis using Cons.IH r sub by blast
  qed
qed

lemma check_budget_same:
  "groups (fst (check_budget E tot s)) = groups s"
  "hashed (fst (check_budget E tot s)) = hashed s"
  "n_done (fst (check_budget E tot s)) = n_done s"
  "CURRENT_MIN_SIZE (glob (fst (check_budget E tot s))) = CURRENT_MIN_SIZE (glob s)"
  "inbox (fst (check_budget E tot s)) = inbox s"
  by (simp_all add: check_budget_def Let_def)

lemma negotiate_same:
  assumes "negotiate s = Some s2"
  shows "groups s2 = groups s" "hashed s2 = hashed s" "n_done s2 = n_done s"
  using assms by (auto simp: negotiate_def Let_def split: option.splits)

lemma skip_bucket_same:
  "groups (skip_bucket E tot paths s) = groups s"
  "hashed (skip_bucket E tot paths s) = hashed s"
  "n_done (skip_bucket E tot paths s) = n_done s + length paths"
  "CURRENT_MIN_SIZE (glob (skip_bucket E tot paths s)) = CURRENT_MIN_SIZE (glob s)"
  "inbox (skip_bucket E tot paths s) = inbox s"
  "hash_done (STATUS (glob (skip_bucket E tot paths s))) = n_done s + length paths"
  by (simp_all add: skip_bucket_def Let_def)

lemma hash_one_effect:
  "hashed (hash_one E bsize p s) = hashed s @ [(bsize, p)]"
  "groups (hash_one E bsize p s) = add_hashed E [(bsize, p)] (groups s)"
  "n_done (hash_one E bsize p s) = n_done s + 1"
  "glob (hash_one E bsize p s) = glob s"
  "inbox (hash_one E bsize p s) = inbox s"
  by (simp_all add: hash_one_def add_hashed_def Let_def split: option.splits)

lemma add_hashed_append:
  "add_hashed E (hs @ hs') g = add_hashed E hs' (add_hashed E hs g)"
  by (simp add: add_hashed_def)

lemma hash_jobs_groups_ok:
  assumes "hash_jobs E tot jobs s = Some s'" and "groups_ok E (dict_pairs jobs) s"
  shows "groups_ok E (dict_pairs jobs) s'"
proof (rule hash_jobs_invariant [OF assms(1), where P = "groups_ok E (dict_pairs jobs)"
      and Q = "dict_pairs jobs"])
  show "groups_ok E (dict_pairs jobs) s" by (rule assms(2))
  show "dict_pairs jobs \<subseteq> dict_pairs jobs" by simp
  show "groups_ok E (dict_pairs jobs) (fst (check_budget E tot s))"
    if "groups_ok E (dict_pairs jobs) s" for s
    using that by (simp add: groups_ok_def check_budget_same)
  show "groups_ok E (dict_pairs jobs) s2"
    if "groups_ok E (dict_pairs jobs) s" "negotiate s = Some s2" for s s2
    using that by (simp add: groups_ok_def negotiate_same)
  show "groups_ok E (dict_pairs jobs) (hash_one E bsize p s)"
    if "groups_ok E (dict_pairs jobs) s" "(bsize, p) \<in> dict_pairs jobs" for s bsize p
    using that by (simp add: groups_ok_def hash_one_effect add_hashed_append)
  show "groups_ok E (dict_pairs jobs) (s\<lparr>n_done := n\<rparr>)"
    if "groups_ok E (dict_pairs jobs) s" for s n
    using that by (simp add: groups_ok_def)
  show "groups_ok E (dict_pairs jobs) (skip_bucket E tot paths s)"
    if "groups_ok E (dict_pairs jobs) s" for s paths
    using that by (simp add: groups_ok_def skip_bucket_same)
qed

subsection \<open>What the hashing loop leaves in the groups\<close>





lemma dup_groups_set:
  "grp \<in> set (dup_groups m grps) \<longleftrightarrow>
     (\<exists>sz d fs. ((sz, d), fs) \<in> set grps \<and> 2 \<le> length fs \<and> m \<le> sz
        \<and> grp = \<lparr>gsize = sz, sha256 = d, files = sort fs\<rparr>)"
  by (auto simp: dup_groups_def image_iff)

lemma run_result:
  assumes "find_duplicates_streaming E nl ex ic ys g reqs = Some (gs, s)"
  shows "gs = dup_groups (CURRENT_MIN_SIZE (glob s)) (groups s)"
    and "groups_ok E (dict_pairs (jobs_all (walk nl ex ic (CURRENT_MIN_SIZE g) ys))) s"
proof -
  let ?w = "walk nl ex ic (CURRENT_MIN_SIZE g) ys"
  let ?jobs = "jobs_all ?w"
  from assms obtain s1 where
    h: "hash_jobs E (total_to_hash ?jobs) ?jobs (hash_state0 E ?w g reqs) = Some s1"
    and gs: "gs = dup_groups (CURRENT_MIN_SIZE (glob s1)) (groups s1)"
    and s: "s = s1\<lparr>glob := (glob s1)\<lparr>STATUS := (STATUS (glob s1))\<lparr>state := Done,
                eta_seconds := Some 0, elapsed_seconds := py_int (clock s1 - started E)\<rparr>\<rparr>\<rparr>"
    by (auto simp: find_duplicates_streaming_def Let_def split: option.splits)
  have "groups_ok E (dict_pairs ?jobs) (hash_state0 E ?w g reqs)"
    by (simp add: groups_ok_def hash_state0_def add_hashed_def)
  from hash_jobs_groups_ok [OF h this] have ok: "groups_ok E (dict_pairs ?jobs) s1" .
  have same: "groups s = groups s1" "hashed s = hashed s1"
    "CURRENT_MIN_SIZE (glob s) = CURRENT_MIN_SIZE (glob s1)"
    by (simp_all add: s)
  show "gs = dup_groups (CURRENT_MIN_SIZE (glob s)) (groups s)"
    by (simp only: same gs)
  show "groups_ok E (dict_pairs ?jobs) s"
    using ok by (simp only: groups_ok_def same)
qed



subsection \<open>Members of the name groups\<close>






subsection \<open>The emitted groups\<close>


text \<open>
  C4: every group of the final output has at least two members, in name mode and in
  content mode, and no group of the name mode has the empty key.
\<close>

theorem emitted_groups_have_two_members:
  "(\<forall>(k, v) \<in> set (scan_by_name U fl nl ig ic ie m ys). 2 \<le> length v \<and> k \<noteq> [])
   \<and> (\<forall>gs s. find_duplicates_streaming E nl ex ic ys g reqs = Some (gs, s)
         \<longrightarrow> (\<forall>grp \<in> set gs. 2 \<le> length (files grp)))"
proof (intro conjI allI impI)
  show "\<forall>(k, v) \<in> set (scan_by_name U fl nl ig ic ie m ys). 2 \<le> length v \<and> k \<noteq> []"
    by (auto simp: scan_by_name_def)
next
  fix gs s
  assume run: "find_duplicates_streaming E nl ex ic ys g reqs = Some (gs, s)"
  show "\<forall>grp \<in> set gs. 2 \<le> length (files grp)"
    using run_result(1) [OF run] by (auto simp: dup_groups_set)
qed

text \<open>
  C10: in content mode the member paths of every emitted group are in ascending
  lexicographic order: the list is the sorted list of its own elements, so it depends on
  which files are members and not on the order in which the walk found them.
\<close>

theorem emitted_group_files_sorted:
  assumes "find_duplicates_streaming E nl ex ic ys g reqs = Some (gs, s)"
    and "grp \<in> set gs"
  shows "sorted (files grp) \<and> files grp = sort (files grp)"
proof -
  from assms obtain fs where "files grp = sort fs"
    using run_result(1) [OF assms(1)] by (auto simp: dup_groups_set)
  then show ?thesis by (simp add: sorted_sort_id)
qed

subsection \<open>Example runs\<close>

lemmas example_defs = report_tree_def file_a_def file_b_def file_c_def
  small_file_def plain_file_def str_def

lemma read_chunks_short:
  "bs \<noteq> [] \<Longrightarrow> length bs \<le> n \<Longrightarrow> read_chunks n bs = [bs]"
proof -
  assume a: "bs \<noteq> []" "length bs \<le> n"
  then have "0 < n" by (cases bs) auto
  then show ?thesis using a
    by (subst read_chunks.simps) (simp add: read_chunks.simps [of n "[]"])
qed

lemma demo_sha256_file:
  "sha256_file (demo_env b c) p =
     (if p = str ''c/report.pdf'' then Some [1, 2, 4] else Some [1, 2, 3])"
  by (simp add: sha256_file_def demo_env_def CHUNK_def read_chunks_short)

lemma report_walk:
  "walk id [] False 10485760 report_tree =
     \<lparr>size_buckets = [(10485760, [str ''a/20240101-0800_report.pdf'', str ''b/report.pdf'',
         str ''c/report.pdf''])],
      walk_scanned = 4, walk_skipped = 1\<rparr>"
  by (simp add: walk_def walk_dir_def walk_file_def walk0_def example_defs)

lemma report_scan:
  "scan_by_name ascii_tables Posix id [] False True 10485760 report_tree =
     [(str ''report'',
       [(str ''a/20240101-0800_report.pdf'', 10485760, 0), (str ''b/report.pdf'', 10485760, 0),
        (str ''c/report.pdf'', 10485760, 0)])]"
  by (simp add: scan_by_name_def scan_walk_def name_dir_def name_file_def name_state0_def
      example_defs normalized_name_def basename_def splitext_def last_component_def is_sep_def
      ts_match_end_def is_digit_def strip_def is_space_def casefold_def casefold_cp_def Let_def)

lemmas run_defs = find_duplicates_streaming_def jobs_all_def total_to_hash_def hash_state0_def
  check_budget_def hash_one_def or0_def py_int_def dup_groups_def demo_sha256_file
  globals0_def STATUS0_def Let_def

lemma demo_env_sel:
  "time_budget_sec (demo_env b c) = b" "started (demo_env b c) = 0"
  "walk_seconds (demo_env b c) = 0" "hash_seconds (demo_env b c) p = c"
  by (simp_all add: demo_env_def)

lemma report_run:
  "map_option (\<lambda>(gs, s). (gs, CURRENT_MIN_SIZE (glob s), n_done s, hashed s,
        suggest_min_size (STATUS (glob s))))
     (find_duplicates_streaming (demo_env 15 10) id [] False report_tree globals0 []) =
   Some ([\<lparr>gsize = 10485760, sha256 = [1, 2, 3],
           files = [str ''a/20240101-0800_report.pdf'', str ''b/report.pdf'']\<rparr>],
         10485760, 3,
         [(10485760, str ''a/20240101-0800_report.pdf''), (10485760, str ''b/report.pdf''),
          (10485760, str ''c/report.pdf'')], None)"
  by (simp add: run_defs demo_env_sel report_walk [simplified globals0_def] str_def)

lemma video_walk:
  "walk id [] False 10485760 video_tree =
     \<lparr>size_buckets =
        [(20971520, [str ''d/f0'', str ''d/f1'', str ''d/f2'', str ''d/f3'', str ''d/f4'',
            str ''d/f5'', str ''d/f6'', str ''d/f7'']),
         (10485760, [str ''a/20240101-0800_report.pdf'', str ''b/report.pdf''])],
      walk_scanned = 10, walk_skipped = 0\<rparr>"
  by (simp add: video_tree_def video_files_def walk_def walk_dir_def walk_file_def walk0_def
      file_a_def file_b_def plain_file_def str_def)

lemma late_video_walk:
  "walk id [] False 10485760 late_video_tree =
     \<lparr>size_buckets =
        [(10485760, [str ''a/20240101-0800_report.pdf'', str ''b/report.pdf'']),
         (20971520, [str ''d/f0'', str ''d/f1'', str ''d/f2'', str ''d/f3'', str ''d/f4'',
            str ''d/f5'', str ''d/f6'', str ''d/f7''])],
      walk_scanned = 10, walk_skipped = 0\<rparr>"
  by (simp add: late_video_tree_def video_files_def walk_def walk_dir_def walk_file_def walk0_def
      file_a_def file_b_def plain_file_def str_def)

lemma hash_paths_go:
  "\<not> snd (check_budget E tot s) \<Longrightarrow>
     hash_paths E tot bsize paths (p # ps) s =
       hash_paths E tot bsize paths ps (hash_one E bsize p (fst (check_budget E tot s)))"
  by (cases "check_budget E tot s") simp

lemma hash_paths_pause:
  "snd (check_budget E tot s) \<Longrightarrow>
     hash_paths E tot bsize paths (p # ps) s =
       (case negotiate (fst (check_budget E tot s)) of
          None \<Rightarrow> None
        | Some s2 \<Rightarrow>
            if bsize < CURRENT_MIN_SIZE (glob s2) then
              Some (s2\<lparr>n_done := n_done s2 + (1 + (length paths - (index_of p paths + 1)))\<rparr>)
            else hash_paths E tot bsize paths ps (hash_one E bsize p s2))"
  by (cases "check_budget E tot s") simp

lemmas pause_defs = negotiate_def resume_def raise_req_def continue_req_def skip_bucket_def
  index_of_def

lemma video_run:
  "map_option (\<lambda>(gs, s). (gs, CURRENT_MIN_SIZE (glob s), n_done s, hashed s,
        suggest_min_size (STATUS (glob s))))
     (find_duplicates_streaming (demo_env 65 10) id [] False video_tree globals0
        [(5, raise_req (Num 4096)), (7, raise_req (Num 31457280))]) =
   Some ([], 31457280, 10,
         [(20971520, str ''d/f0''), (20971520, str ''d/f1''), (20971520, str ''d/f2''),
          (20971520, str ''d/f3''), (20971520, str ''d/f4''), (20971520, str ''d/f5'')],
         Some 52428800)"
  by (simp add: run_defs pause_defs demo_env_sel video_walk [simplified globals0_def] str_def
      hash_paths_go hash_paths_pause del: hash_paths.simps(2))

lemma late_video_run:
  "map_option (\<lambda>(gs, s). (gs, CURRENT_MIN_SIZE (glob s), n_done s, hashed s,
        suggest_min_size (STATUS (glob s))))
     (find_duplicates_streaming (demo_env 65 10) id [] False late_video_tree globals0
        [(7, raise_req (Num 15728640))]) =
   Some ([\<lparr>gsize = 20971520, sha256 = [1, 2, 3],
           files = [str ''d/f0'', str ''d/f1'', str ''d/f2'', str ''d/f3'', str ''d/f4'',
            str ''d/f5'', str ''d/f6'', str ''d/f7'']\<rparr>],
         15728640, 10,
         [(10485760, str ''a/20240101-0800_report.pdf''), (10485760, str ''b/report.pdf''),
          (20971520, str ''d/f0''), (20971520, str ''d/f1''), (20971520, str ''d/f2''),
          (20971520, str ''d/f3''), (20971520, str ''d/f4''), (20971520, str ''d/f5''),
          (20971520, str ''d/f6''), (20971520, str ''d/f7'')],
         Some 52428800)"
  by (simp add: run_defs pause_defs demo_env_sel late_video_walk [simplified globals0_def] str_def
      hash_paths_go hash_paths_pause del: hash_paths.simps(2))

lemma report_run_state:
  obtains s where
    "find_duplicates_streaming (demo_env 15 10) id [] False report_tree globals0 [] =
       Some ([\<lparr>gsize = 10485760, sha256 = [1, 2, 3],
               files = [str ''a/20240101-0800_report.pdf'', str ''b/report.pdf'']\<rparr>], s)"
    "CURRENT_MIN_SIZE (glob s) = 10485760" "n_done s = 3"
    "hashed s = [(10485760, str ''a/20240101-0800_report.pdf''), (10485760, str ''b/report.pdf''),
          (10485760, str ''c/report.pdf'')]"
    "suggest_min_size (STATUS (glob s)) = None"
  using report_run by auto

lemma late_video_run_state:
  obtains s where
    "find_duplicates_streaming (demo_env 65 10) id [] False late_video_tree globals0
        [(7, raise_req (Num 15728640))] =
       Some ([\<lparr>gsize = 20971520, sha256 = [1, 2, 3],
           files = [str ''d/f0'', str ''d/f1'', str ''d/f2'', str ''d/f3'', str ''d/f4'',
            str ''d/f5'', str ''d/f6'', str ''d/f7'']\<rparr>], s)"
    "CURRENT_MIN_SIZE (glob s) = 15728640" "n_done s = 10"
    "hashed s = [(10485760, str ''a/20240101-0800_report.pdf''), (10485760, str ''b/report.pdf''),
          (20971520, str ''d/f0''), (20971520, str ''d/f1''), (20971520, str ''d/f2''),
          (20971520, str ''d/f3''), (20971520, str ''d/f4''), (20971520, str ''d/f5''),
          (20971520, str ''d/f6''), (20971520, str ''d/f7'')]"
    "suggest_min_size (STATUS (glob s)) = Some 52428800"
  using late_video_run by auto

subsection \<open>Witnesses on the example trees\<close>



theorem emitted_group_files_sorted_witness:
  "map_option fst (find_duplicates_streaming (demo_env 65 10) id [] False late_video_tree
         globals0 [(7, raise_req (Num 15728640))]) =
       Some [\<lparr>gsize = 20971520, sha256 = [1, 2, 3],
           files = [str ''d/f0'', str ''d/f1'', str ''d/f2'', str ''d/f3'', str ''d/f4'',
            str ''d/f5'', str ''d/f6'', str ''d/f7'']\<rparr>]
   \<and> sorted [str ''d/f0'', str ''d/f1'', str ''d/f2'', str ''d/f3'', str ''d/f4'',
            str ''d/f5'', str ''d/f6'', str ''d/f7'']"
proof -
  let ?G = "\<lparr>gsize = 20971520, sha256 = [1, 2, 3],
           files = [str ''d/f0'', str ''d/f1'', str ''d/f2'', str ''d/f3'', str ''d/f4'',
            str ''d/f5'', str ''d/f6'', str ''d/f7'']\<rparr>"
  obtain s where run: "find_duplicates_streaming (demo_env 65 10) id [] False late_video_tree
        globals0 [(7, raise_req (Num 15728640))] = Some ([?G], s)"
    by (rule late_video_run_state)
  have "?G \<in> set [?G]" by (simp only: list.set insertI1)
  from emitted_group_files_sorted [OF run this, THEN conjunct1]
  have a: "sorted [str ''d/f0'', str ''d/f1'', str ''d/f2'', str ''d/f3'', str ''d/f4'',
            str ''d/f5'', str ''d/f6'', str ''d/f7'']"
    by (simp only: group.select_convs)
  have r: "map_option fst (find_duplicates_streaming (demo_env 65 10) id [] False late_video_tree
         globals0 [(7, raise_req (Num 15728640))]) = Some [?G]"
    by (simp only: run option.map fst_conv)
  from r a show ?thesis by (rule conjI)
qed

theorem emitted_groups_have_two_members_witness:
  "scan_by_name ascii_tables Posix id [] False True 10485760 report_tree =
     [(str ''report'',
       [(str ''a/20240101-0800_report.pdf'', 10485760, 0), (str ''b/report.pdf'', 10485760, 0),
        (str ''c/report.pdf'', 10485760, 0)])]
   \<and> 2 \<le> length [(str ''a/20240101-0800_report.pdf'', 10485760::int, 0::rat),
        (str ''b/report.pdf'', 10485760, 0), (str ''c/report.pdf'', 10485760, 0)]
   \<and> str ''report'' \<noteq> []
   \<and> map_option fst (find_duplicates_streaming (demo_env 15 10) id [] False report_tree
         globals0 []) =
       Some [\<lparr>gsize = 10485760, sha256 = [1, 2, 3],
               files = [str ''a/20240101-0800_report.pdf'', str ''b/report.pdf'']\<rparr>]
   \<and> 2 \<le> length [str ''a/20240101-0800_report.pdf'', str ''b/report.pdf'']"
proof -
  let ?G = "\<lparr>gsize = 10485760, sha256 = [1, 2, 3],
               files = [str ''a/20240101-0800_report.pdf'', str ''b/report.pdf'']\<rparr>"
  let ?L = "[(str ''a/20240101-0800_report.pdf'', 10485760::int, 0::rat),
        (str ''b/report.pdf'', 10485760, 0), (str ''c/report.pdf'', 10485760, 0)]"
  note t = emitted_groups_have_two_members [where U = ascii_tables and fl = Posix and nl = id
      and ig = "[]" and ic = False and ie = True and m = 10485760 and ys = report_tree
      and E = "demo_env 15 10" and ex = "[]" and g = globals0 and reqs = "[]"]
  obtain s where run: "find_duplicates_streaming (demo_env 15 10) id [] False report_tree
        globals0 [] = Some ([?G], s)"
    by (rule report_run_state)
  have "(str ''report'', ?L) \<in> set (scan_by_name ascii_tables Posix id [] False True 10485760
          report_tree)"
    by (simp only: report_scan list.set insertI1)
  with t [THEN conjunct1] have a: "2 \<le> length ?L \<and> str ''report'' \<noteq> []"
    by blast
  have "?G \<in> set [?G]" by (simp only: list.set insertI1)
  with t [THEN conjunct2] run have "2 \<le> length (files ?G)"
    by blast
  then have b: "2 \<le> length [str ''a/20240101-0800_report.pdf'', str ''b/report.pdf'']"
    by (simp only: group.select_convs)
  have r: "map_option fst (find_duplicates_streaming (demo_env 15 10) id [] False report_tree
         globals0 []) = Some [?G]"
    by (simp only: run option.map fst_conv)
  from report_scan a b r show ?thesis by blast
qed

subsection \<open>Files that share a group\<close>







subsection \<open>Candidates reach the jobs\<close>















subsection \<open>Buckets that stay above the minimum size are hashed\<close>















end
